theory Spec2Isabelle
  imports Main "HOL-Library.Finite_Map"
begin

section \<open>Data model of the consent manager builder\<close>

text \<open>
  The builder (\<^verbatim>\<open>src/consent-manager-builder/index.tsx\<close>) reads one field of a
  \<^verbatim>\<open>Destination\<close>, its \<^verbatim>\<open>id\<close>; the type is imported from \<^verbatim>\<open>../types\<close>. The record
  below has that field (named \<open>id'\<close>, since \<open>id\<close> is the identity function of HOL) and
  every function is typed over the record scheme, so that whatever other fields a
  destination carries are passed through untouched.
\<close>

record Destination =
  id' :: string

text \<open>
  A value stored in a \<^verbatim>\<open>CategoryPreferences\<close> object is declared as
  \<^verbatim>\<open>boolean | null | undefined\<close> (line 158 of the source tests stored values against
  both \<^verbatim>\<open>null\<close> and \<^verbatim>\<open>undefined\<close>). \<open>PObject\<close> stands for any function or object:
  it is what reading a name inherited from \<^verbatim>\<open>Object.prototype\<close> returns, and what a
  caller that is not type-checked could store. A JavaScript object is a finite map from
  its own property names to values; a key can be present and hold \<^verbatim>\<open>undefined\<close>, which
  is different from the key being absent for \<^verbatim>\<open>Object.keys\<close>, \<^verbatim>\<open>Object.values\<close>
  and the spread operator.
\<close>

datatype pref = PUndefined | PNull | PBool bool | PObject

type_synonym CategoryPreferences = "(string, pref) fmap"

text \<open>
  The preference objects of the engine are plain objects (object literals, spreads, parsed
  JSON), whose prototype is \<^verbatim>\<open>Object.prototype\<close>. These are its property names in
  ECMAScript, Annex B included; each is bound to a function, \<^verbatim>\<open>__proto__\<close> to the
  prototype object itself.
\<close>

definition objectPrototypeKeys :: "string list" where
  "objectPrototypeKeys =
     [''constructor'', ''hasOwnProperty'', ''isPrototypeOf'', ''propertyIsEnumerable'',
      ''toLocaleString'', ''toString'', ''valueOf'', ''__proto__'',
      ''__defineGetter__'', ''__defineSetter__'', ''__lookupGetter__'', ''__lookupSetter__'']"

text \<open>
  Property access \<^verbatim>\<open>obj[key]\<close> on a plain object: the value of the own key when there is
  one; otherwise the member inherited from \<^verbatim>\<open>Object.prototype\<close> when the key names one;
  otherwise \<^verbatim>\<open>undefined\<close>.
\<close>

definition getProp :: "CategoryPreferences \<Rightarrow> string \<Rightarrow> pref" where
  "getProp obj k =
     (case fmlookup obj k of
        Some v \<Rightarrow> v
      | None \<Rightarrow> if k \<in> set objectPrototypeKeys then PObject else PUndefined)"

text \<open>
  \<^verbatim>\<open>Boolean(v)\<close>: \<^verbatim>\<open>true\<close>, functions and objects are truthy; \<^verbatim>\<open>false\<close>,
  \<^verbatim>\<open>null\<close> and \<^verbatim>\<open>undefined\<close> are not.
\<close>

definition Boolean :: "pref \<Rightarrow> bool" where
  "Boolean v = (v = PBool True \<or> v = PObject)"

text \<open>\<^verbatim>\<open>Object.values(obj).some(p)\<close> and \<^verbatim>\<open>Object.values(obj).every(p)\<close>.\<close>

definition valuesEvery :: "(pref \<Rightarrow> bool) \<Rightarrow> CategoryPreferences \<Rightarrow> bool" where
  "valuesEvery p obj = fmpred (\<lambda>k v. p v) obj"

definition valuesSome :: "(pref \<Rightarrow> bool) \<Rightarrow> CategoryPreferences \<Rightarrow> bool" where
  "valuesSome p obj = (\<not> fmpred (\<lambda>k v. \<not> p v) obj)"

text \<open>\<^verbatim>\<open>a || b\<close> where \<open>a\<close> is an optional object: every object is truthy.\<close>

definition orElse :: "'a option \<Rightarrow> 'a option \<Rightarrow> 'a option" where
  "orElse a b = (case a of Some x \<Rightarrow> Some x | None \<Rightarrow> b)"

text \<open>A destructuring default \<^verbatim>\<open>{ x = d }\<close>, or \<^verbatim>\<open>x || d\<close> with an object \<open>d\<close>.\<close>

definition withDefault :: "'a \<Rightarrow> 'a option \<Rightarrow> 'a" where
  "withDefault d a = (case a of Some x \<Rightarrow> x | None \<Rightarrow> d)"

subsection \<open>\<^verbatim>\<open>destinationsWithoutConsent\<close> (lines 17--26)\<close>

definition destinationsWithoutConsent ::
  "'a Destination_scheme list \<Rightarrow> CategoryPreferences option \<Rightarrow> 'a Destination_scheme list" where
  "destinationsWithoutConsent destinations destinationPreferences =
     (case destinationPreferences of
        None \<Rightarrow> destinations
      | Some prefs \<Rightarrow> filter (\<lambda>d. getProp prefs (id' d) = PUndefined) destinations)"

text \<open>
  The diff as the specification words it: the destinations whose id is not a key of the
  mapping. It is compared with the function of the source below.
\<close>

definition diffByKey ::
  "'a Destination_scheme list \<Rightarrow> CategoryPreferences \<Rightarrow> 'a Destination_scheme list" where
  "diffByKey destinations prefs = filter (\<lambda>d. id' d |\<notin>| fmdom prefs) destinations"

subsection \<open>\<^verbatim>\<open>mergePreferences\<close> (lines 253--274)\<close>

text \<open>The argument \<^verbatim>\<open>newPreferences?: CategoryPreferences | boolean\<close>.\<close>

datatype NewPreferences = NPrefs CategoryPreferences | NBool bool | NUndefined

definition mergePreferences ::
  "'a Destination_scheme list \<Rightarrow> CategoryPreferences \<Rightarrow> NewPreferences \<Rightarrow> CategoryPreferences" where
  "mergePreferences destinations existingPreferences newPreferences =
     (case newPreferences of
        NBool b \<Rightarrow>
          foldl (\<lambda>prefs destination. fmupd (id' destination) (PBool b) prefs) fmempty destinations
      | NPrefs new \<Rightarrow> existingPreferences ++\<^sub>f new
      | NUndefined \<Rightarrow> existingPreferences ++\<^sub>f fmempty)"

section \<open>The engine: props, state and the outside world\<close>

text \<open>A rejected promise or a thrown exception carries an \<^verbatim>\<open>Error\<close>.\<close>

datatype error = Error string

text \<open>
  What \<^verbatim>\<open>mapCustomPreferences\<close> returns. Its declared type makes both fields
  mandatory, but \<^verbatim>\<open>handleSaveConsent\<close> tests \<^verbatim>\<open>customPreferences\<close> for presence
  (lines 227--233), so that field is optional here.
\<close>

record Mapped =
  mapped_destinationPreferences :: CategoryPreferences
  mapped_customPreferences :: "CategoryPreferences option"

text \<open>
  The \<^verbatim>\<open>Props\<close> interface (lines 28--64). \<^verbatim>\<open>shouldRequireConsent\<close> is a thunk; it is
  represented by the outcome of calling it. \<^verbatim>\<open>mapCustomPreferences\<close> is caller code
  and may throw. \<^verbatim>\<open>onError\<close> says whether an error callback is configured; calling it
  is recorded in the trace of the world. \<^verbatim>\<open>children\<close> is the render callback, see
  \<open>render\<close> below.
\<close>

record 'a Props =
  writeKey :: string
  otherWriteKeys :: "string list option"
  cookieDomain :: "string option"
  initialPreferences :: "CategoryPreferences option"
  shouldRequireConsent :: "(error + bool) option"
  mapCustomPreferences ::
    "('a Destination_scheme list \<Rightarrow> CategoryPreferences \<Rightarrow> error + Mapped) option"
  onError :: bool

text \<open>
  The \<^verbatim>\<open>State\<close> interface (lines 76--82), with the field \<^verbatim>\<open>destinationPreferences\<close>
  that \<^verbatim>\<open>handleSaveConsent\<close> adds to the state object at line 249.
\<close>

record 'a State =
  isLoading :: bool
  destinations :: "'a Destination_scheme list"
  newDestinations :: "'a Destination_scheme list"
  preferences :: "CategoryPreferences option"
  isConsentRequired :: bool
  state_destinationPreferences :: "CategoryPreferences option"

text \<open>The initial value of \<^verbatim>\<open>state\<close> (lines 94--100).\<close>

definition initialState :: "'a State" where
  "initialState =
     \<lparr>isLoading = True, destinations = [], newDestinations = [],
      preferences = Some fmempty, isConsentRequired = True,
      state_destinationPreferences = None\<rparr>"

text \<open>
  \<^verbatim>\<open>defaultProps\<close> (lines 87--92): the values that stand in for the props the caller
  leaves out. \<^verbatim>\<open>initialise\<close> names two of them again as destructuring defaults (lines
  137--138); the handlers read \<^verbatim>\<open>initialPreferences\<close> as it is, so the functions below
  take the props as given and \<open>withDefaultProps\<close> is applied by whoever wants the
  defaults filled in first.
\<close>

definition withDefaultProps :: "'a Props \<Rightarrow> 'a Props" where
  "withDefaultProps props =
     props\<lparr>otherWriteKeys := Some (withDefault [] (otherWriteKeys props)),
           shouldRequireConsent := Some (withDefault (Inr True) (shouldRequireConsent props)),
           initialPreferences := Some (withDefault fmempty (initialPreferences props))\<rparr>"

text \<open>The record \<^verbatim>\<open>loadPreferences()\<close> returns: both fields are optional.\<close>

record Preferences =
  destinationPreferences :: "CategoryPreferences option"
  customPreferences :: "CategoryPreferences option"

text \<open>
  Calls that leave the engine, in the order they are made: the argument records of
  \<^verbatim>\<open>savePreferences\<close> and \<^verbatim>\<open>conditionallyLoadAnalytics\<close>, and the error handed to
  \<^verbatim>\<open>onError\<close>.
\<close>

datatype 'a effect =
    SavePreferences CategoryPreferences "CategoryPreferences option" "string option"
  | ConditionallyLoadAnalytics string "'a Destination_scheme list" CategoryPreferences bool
      "bool option"
  | OnError error

record 'a World =
  state :: "'a State"
  store :: Preferences
  trace :: "'a effect list"

text \<open>
  What the engine cannot decide itself during initialisation: the outcome of
  \<^verbatim>\<open>fetchDestinations\<close> for a list of write keys, and which of the two joined promises
  settles first (\<^verbatim>\<open>Promise.all\<close> rejects with the first rejection).
\<close>

record 'a Env =
  fetchDestinations :: "string list \<Rightarrow> error + 'a Destination_scheme list"
  fetchSettlesFirst :: bool

text \<open>
  Modelled from the spec: \<^verbatim>\<open>loadPreferences\<close> and \<^verbatim>\<open>savePreferences\<close> are imported
  from \<^verbatim>\<open>./preferences\<close>, which is not among the sources. Following section 6 of the
  specification, \<open>load\<close> returns the persisted record and \<open>save\<close> overwrites it with the
  record it receives (``overwrite semantics, not merge''). The call is also appended to
  the trace.
\<close>

definition loadPreferences :: "'a World \<Rightarrow> Preferences" where
  "loadPreferences w = store w"

definition savePreferences ::
  "CategoryPreferences \<Rightarrow> CategoryPreferences option \<Rightarrow> string option \<Rightarrow> 'a World \<Rightarrow> 'a World" where
  "savePreferences destPrefs customPrefs domain w =
     w\<lparr>store := \<lparr>destinationPreferences = Some destPrefs, customPreferences = customPrefs\<rparr>,
       trace := trace w @ [SavePreferences destPrefs customPrefs domain]\<rparr>"

text \<open>
  \<^verbatim>\<open>conditionallyLoadAnalytics\<close> (imported from \<^verbatim>\<open>./analytics\<close>) is fire-and-forget for
  the engine: the call is recorded with its arguments.
\<close>

definition conditionallyLoadAnalytics ::
  "string \<Rightarrow> 'a Destination_scheme list \<Rightarrow> CategoryPreferences \<Rightarrow> bool \<Rightarrow> bool option \<Rightarrow>
   'a World \<Rightarrow> 'a World" where
  "conditionallyLoadAnalytics key dests destPrefs required shouldReload w =
     w\<lparr>trace := trace w @ [ConditionallyLoadAnalytics key dests destPrefs required shouldReload]\<rparr>"

text \<open>\<^verbatim>\<open>Promise.all([a, b])\<close>: both values, or the rejection that settles first.\<close>

definition promiseAll :: "bool \<Rightarrow> error + 'x \<Rightarrow> error + 'y \<Rightarrow> error + ('x \<times> 'y)" where
  "promiseAll secondFirst a b =
     (case a of
        Inr x \<Rightarrow> (case b of Inr y \<Rightarrow> Inr (x, y) | Inl e2 \<Rightarrow> Inl e2)
      | Inl e1 \<Rightarrow> (case b of Inr y \<Rightarrow> Inl e1 | Inl e2 \<Rightarrow> Inl (if secondFirst then e2 else e1)))"

subsection \<open>\<^verbatim>\<open>initialise\<close> (lines 134--184)\<close>

text \<open>
  The branch of lines 153--168: the exposed preferences and the destination-level
  preferences that go on to \<^verbatim>\<open>conditionallyLoadAnalytics\<close>. The adapter runs only in
  the branch of line 161, and its exception leaves \<^verbatim>\<open>initialise\<close>. Line 164 also
  assigns the adapter's custom preferences to a local variable that is not read again.
\<close>

definition resolveInitial ::
  "'a Props \<Rightarrow> 'a Destination_scheme list \<Rightarrow> CategoryPreferences \<Rightarrow> CategoryPreferences option \<Rightarrow>
   error + (CategoryPreferences option \<times> CategoryPreferences)" where
  "resolveInitial props dests destPrefs customPrefs =
     (case mapCustomPreferences props of
        Some adapter \<Rightarrow>
          (let prefs = withDefault fmempty (orElse customPrefs (initialPreferences props));
               hasInitialPreferenceToTrue =
                 valuesSome Boolean (withDefault fmempty (initialPreferences props));
               emptyCustomPreferecences =
                 valuesEvery (\<lambda>v. v = PNull \<or> v = PUndefined) (withDefault fmempty customPrefs)
           in if hasInitialPreferenceToTrue \<and> emptyCustomPreferecences
              then (case adapter dests prefs of
                      Inl e \<Rightarrow> Inl e
                    | Inr mapped \<Rightarrow> Inr (Some prefs, mapped_destinationPreferences mapped))
              else Inr (Some prefs, destPrefs))
      | None \<Rightarrow> Inr (orElse (Some destPrefs) (initialPreferences props), destPrefs))"

definition initialise :: "'a Props \<Rightarrow> 'a Env \<Rightarrow> 'a World \<Rightarrow> error + 'a World" where
  "initialise props env w =
     (let keys = writeKey props # withDefault [] (otherWriteKeys props);
          required = withDefault (Inr True) (shouldRequireConsent props);
          loaded = loadPreferences w;
          destPrefs = withDefault fmempty (destinationPreferences loaded);
          customPrefs = customPreferences loaded
      in case promiseAll (fetchSettlesFirst env) required (fetchDestinations env keys) of
           Inl e \<Rightarrow> Inl e
         | Inr (isConsentRequired', dests) \<Rightarrow>
             (let newDests = destinationsWithoutConsent dests (Some destPrefs)
              in case resolveInitial props dests destPrefs customPrefs of
                   Inl e \<Rightarrow> Inl e
                 | Inr (prefs, destPrefs') \<Rightarrow>
                     (let w' = conditionallyLoadAnalytics (writeKey props) dests destPrefs'
                                 isConsentRequired' None w
                      in Inr (w'\<lparr>state := (state w')
                                \<lparr>isLoading := False, destinations := dests,
                                 newDestinations := newDests, preferences := prefs,
                                 isConsentRequired := isConsentRequired'\<rparr>\<rparr>))))"

subsection \<open>\<^verbatim>\<open>componentDidMount\<close> (lines 121--132) and \<^verbatim>\<open>render\<close> (lines 102--119)\<close>

definition componentDidMount :: "'a Props \<Rightarrow> 'a Env \<Rightarrow> 'a World \<Rightarrow> error + 'a World" where
  "componentDidMount props env w =
     (if onError props
      then (case initialise props env w of
              Inl e \<Rightarrow> Inr (w\<lparr>trace := trace w @ [OnError e]\<rparr>)
            | Inr w' \<Rightarrow> Inr w')
      else initialise props env w)"

text \<open>
  The object handed to \<^verbatim>\<open>children\<close>; the three bound handlers are the operations
  below. \<open>render\<close> is \<open>None\<close> when the source returns \<^verbatim>\<open>null\<close> without calling
  \<^verbatim>\<open>children\<close>.
\<close>

record 'a RenderProps =
  rp_destinations :: "'a Destination_scheme list"
  rp_newDestinations :: "'a Destination_scheme list"
  rp_preferences :: "CategoryPreferences option"
  rp_isConsentRequired :: bool

definition render :: "'a State \<Rightarrow> 'a RenderProps option" where
  "render st =
     (if isLoading st then None
      else Some \<lparr>rp_destinations = destinations st, rp_newDestinations = newDestinations st,
                 rp_preferences = preferences st, rp_isConsentRequired = isConsentRequired st\<rparr>)"

subsection \<open>The three handlers (lines 186--251)\<close>

text \<open>
  Each handler replaces the state in one \<^verbatim>\<open>setState\<close>. \<^verbatim>\<open>handleSetPreferences\<close>
  declares its argument as \<^verbatim>\<open>CategoryPreferences\<close> and passes it to
  \<^verbatim>\<open>mergePreferences\<close> unchanged, so it is given the argument type of the latter.
\<close>

definition handleSetPreferences :: "NewPreferences \<Rightarrow> 'a World \<Rightarrow> 'a World" where
  "handleSetPreferences newPreferences w =
     (let prevState = state w;
          existingPreferences = withDefault fmempty (preferences prevState);
          prefs = mergePreferences (destinations prevState) existingPreferences newPreferences
      in w\<lparr>state := prevState\<lparr>preferences := Some prefs\<rparr>\<rparr>)"

definition handleResetPreferences :: "'a Props \<Rightarrow> 'a World \<Rightarrow> 'a World" where
  "handleResetPreferences props w =
     (let loaded = loadPreferences w;
          prefs = (case mapCustomPreferences props of
                     Some adapter \<Rightarrow> orElse (customPreferences loaded) (initialPreferences props)
                   | None \<Rightarrow> orElse (destinationPreferences loaded) (initialPreferences props))
      in w\<lparr>state := (state w)\<lparr>preferences := prefs\<rparr>\<rparr>)"

text \<open>
  Lines 222--236: the destination-level preferences, the custom preferences and the
  exposed preferences that come out of the merged preferences.
\<close>

definition resolveSaved ::
  "'a Props \<Rightarrow> 'a Destination_scheme list \<Rightarrow> CategoryPreferences \<Rightarrow>
   error + (CategoryPreferences \<times> CategoryPreferences option \<times> CategoryPreferences)" where
  "resolveSaved props dests prefs =
     (case mapCustomPreferences props of
        Some adapter \<Rightarrow>
          (case adapter dests prefs of
             Inl e \<Rightarrow> Inl e
           | Inr custom \<Rightarrow>
               (case mapped_customPreferences custom of
                  Some customPrefs \<Rightarrow>
                    Inr (mapped_destinationPreferences custom, Some customPrefs, customPrefs)
                | None \<Rightarrow> Inr (mapped_destinationPreferences custom, Some prefs, prefs)))
      | None \<Rightarrow> Inr (prefs, None, prefs))"

definition handleSaveConsent ::
  "'a Props \<Rightarrow> NewPreferences \<Rightarrow> bool option \<Rightarrow> 'a World \<Rightarrow> error + 'a World" where
  "handleSaveConsent props newPreferences shouldReload w =
     (let prevState = state w;
          existingPreferences = withDefault fmempty (preferences prevState);
          merged = mergePreferences (destinations prevState) existingPreferences newPreferences
      in case resolveSaved props (destinations prevState) merged of
           Inl e \<Rightarrow> Inl e
         | Inr (destPrefs, customPrefs, prefs) \<Rightarrow>
             (let newDests = destinationsWithoutConsent (destinations prevState) (Some destPrefs);
                  w1 = savePreferences destPrefs customPrefs (cookieDomain props) w;
                  w2 = conditionallyLoadAnalytics (writeKey props) (destinations prevState)
                         destPrefs (isConsentRequired prevState) shouldReload w1
              in Inr (w2\<lparr>state := prevState
                        \<lparr>state_destinationPreferences := Some destPrefs,
                         preferences := Some prefs, newDestinations := newDests\<rparr>\<rparr>)))"

subsection \<open>Sequences of calls made through the render props\<close>

datatype Call =
    SetPreferences NewPreferences
  | ResetPreferences
  | SaveConsent NewPreferences "bool option"

fun call :: "'a Props \<Rightarrow> Call \<Rightarrow> 'a World \<Rightarrow> error + 'a World" where
  "call props (SetPreferences newPreferences) w = Inr (handleSetPreferences newPreferences w)"
| "call props ResetPreferences w = Inr (handleResetPreferences props w)"
| "call props (SaveConsent newPreferences shouldReload) w =
     handleSaveConsent props newPreferences shouldReload w"

text \<open>
  A call that throws (the adapter, inside \<^verbatim>\<open>handleSaveConsent\<close>) commits nothing, and
  the caller may go on calling.
\<close>

fun calls :: "'a Props \<Rightarrow> Call list \<Rightarrow> 'a World \<Rightarrow> 'a World" where
  "calls props [] w = w"
| "calls props (c # cs) w =
     (case call props c w of Inl e \<Rightarrow> calls props cs w | Inr w' \<Rightarrow> calls props cs w')"

section \<open>The invariant of \<^verbatim>\<open>newDestinations\<close>\<close>

text \<open>
  \<^verbatim>\<open>newDestinations\<close> is what \<^verbatim>\<open>destinationsWithoutConsent\<close> returns for the
  destinations of the state and the destination-level preferences that
  \<^verbatim>\<open>loadPreferences\<close> would return now (the empty object when there is no record).
\<close>

definition diffInvariant :: "'a World \<Rightarrow> bool" where
  "diffInvariant w =
     (newDestinations (state w) =
        destinationsWithoutConsent (destinations (state w))
          (Some (withDefault fmempty (destinationPreferences (loadPreferences w)))))"

section \<open>Example inputs\<close>

text \<open>Two destinations, and the objects \<^verbatim>\<open>{a: true}\<close> and \<^verbatim>\<open>{a: true, b: true}\<close>.\<close>

definition destA :: Destination where
  "destA = \<lparr>id' = ''a''\<rparr>"

definition destB :: Destination where
  "destB = \<lparr>id' = ''b''\<rparr>"

definition prefsA :: CategoryPreferences where
  "prefsA = fmupd ''a'' (PBool True) fmempty"

definition prefsAB :: CategoryPreferences where
  "prefsAB = fmupd ''b'' (PBool True) (fmupd ''a'' (PBool True) fmempty)"

text \<open>
  Props without an adapter and without an error callback, with initial preferences
  \<^verbatim>\<open>{a: true}\<close>; a catalog of the two destinations; a world whose engine has just been
  constructed and whose store holds no record; and the same world with \<^verbatim>\<open>{a: true}\<close>
  persisted as destination-level preferences.
\<close>

definition plainProps :: "unit Props" where
  "plainProps =
     \<lparr>writeKey = ''key'', otherWriteKeys = None, cookieDomain = None,
      initialPreferences = Some prefsA, shouldRequireConsent = None,
      mapCustomPreferences = None, onError = False\<rparr>"

definition catalogAB :: "unit Env" where
  "catalogAB = \<lparr>fetchDestinations = (\<lambda>keys. Inr [destA, destB]), fetchSettlesFirst = False\<rparr>"

definition freshWorld :: "unit World" where
  "freshWorld =
     \<lparr>state = initialState,
      store = \<lparr>destinationPreferences = None, customPreferences = None\<rparr>,
      trace = []\<rparr>"

definition returningWorld :: "unit World" where
  "returningWorld =
     freshWorld\<lparr>store := \<lparr>destinationPreferences = Some prefsA, customPreferences = None\<rparr>\<rparr>"

text \<open>
  An adapter with one category: when the custom preferences decide \<^verbatim>\<open>marketing\<close>,
  every destination gets that value; when they do not, no destination gets one. The
  custom preferences are returned as they came.
\<close>

definition categoryAdapter ::
  "Destination list \<Rightarrow> CategoryPreferences \<Rightarrow> error + Mapped" where
  "categoryAdapter dests prefs =
     Inr \<lparr>mapped_destinationPreferences =
            (case fmlookup prefs ''marketing'' of
               None \<Rightarrow> fmempty
             | Some v \<Rightarrow> foldl (\<lambda>m d. fmupd (id' d) v m) fmempty dests),
          mapped_customPreferences = Some prefs\<rparr>"

definition adapterProps :: "unit Props" where
  "adapterProps =
     plainProps\<lparr>initialPreferences := Some (fmupd ''marketing'' (PBool True) fmempty),
                mapCustomPreferences := Some categoryAdapter\<rparr>"

text \<open>A catalog fetch that is rejected.\<close>

definition offline :: "unit Env" where
  "offline = \<lparr>fetchDestinations = (\<lambda>keys. Inl (Error ''network'')), fetchSettlesFirst = False\<rparr>"

text \<open>
  The worlds that initialisation produces from the inputs above, written out: for a
  returning user with \<^verbatim>\<open>{a: true}\<close> persisted, for a user with no record, and for a
  user with no record when the adapter is configured and the initial preferences are
  \<^verbatim>\<open>{marketing: true}\<close>.
\<close>

definition readyWorld :: "unit World" where
  "readyWorld =
     \<lparr>state = \<lparr>isLoading = False, destinations = [destA, destB], newDestinations = [destB],
               preferences = Some prefsA, isConsentRequired = True,
               state_destinationPreferences = None\<rparr>,
      store = \<lparr>destinationPreferences = Some prefsA, customPreferences = None\<rparr>,
      trace = [ConditionallyLoadAnalytics ''key'' [destA, destB] prefsA True None]\<rparr>"

definition freshReady :: "unit World" where
  "freshReady =
     \<lparr>state = \<lparr>isLoading = False, destinations = [destA, destB],
               newDestinations = [destA, destB],
               preferences = Some fmempty, isConsentRequired = True,
               state_destinationPreferences = None\<rparr>,
      store = \<lparr>destinationPreferences = None, customPreferences = None\<rparr>,
      trace = [ConditionallyLoadAnalytics ''key'' [destA, destB] fmempty True None]\<rparr>"

definition freshUserReady :: "unit World" where
  "freshUserReady =
     \<lparr>state = \<lparr>isLoading = False, destinations = [destA, destB],
               newDestinations = [destA, destB],
               preferences = Some (fmupd ''marketing'' (PBool True) fmempty),
               isConsentRequired = True, state_destinationPreferences = None\<rparr>,
      store = \<lparr>destinationPreferences = None, customPreferences = None\<rparr>,
      trace = [ConditionallyLoadAnalytics ''key'' [destA, destB] prefsAB True None]\<rparr>"

text \<open>
  The adapter configured and no initial preferences: the world after initialisation
  from an empty store, and the world after \<^verbatim>\<open>saveConsent({a: true})\<close> in it.
\<close>

definition undecidedProps :: "unit Props" where
  "undecidedProps = adapterProps\<lparr>initialPreferences := None\<rparr>"

definition undecidedReady :: "unit World" where
  "undecidedReady =
     \<lparr>state = \<lparr>isLoading = False, destinations = [destA, destB],
               newDestinations = [destA, destB],
               preferences = Some fmempty, isConsentRequired = True,
               state_destinationPreferences = None\<rparr>,
      store = \<lparr>destinationPreferences = None, customPreferences = None\<rparr>,
      trace = [ConditionallyLoadAnalytics ''key'' [destA, destB] fmempty True None]\<rparr>"

definition undecidedSaved :: "unit World" where
  "undecidedSaved =
     \<lparr>state = \<lparr>isLoading = False, destinations = [destA, destB],
               newDestinations = [destA, destB],
               preferences = Some prefsA, isConsentRequired = True,
               state_destinationPreferences = Some fmempty\<rparr>,
      store = \<lparr>destinationPreferences = Some fmempty, customPreferences = Some prefsA\<rparr>,
      trace = [ConditionallyLoadAnalytics ''key'' [destA, destB] fmempty True None,
               SavePreferences fmempty (Some prefsA) None,
               ConditionallyLoadAnalytics ''key'' [destA, destB] fmempty True None]\<rparr>"

text \<open>
  The world after \<^verbatim>\<open>saveConsent({b: undefined})\<close> for the returning user, without an
  adapter: the object \<^verbatim>\<open>{a: true, b: undefined}\<close> is what \<^verbatim>\<open>savePreferences\<close> receives.
\<close>

definition prefsAUndefB :: CategoryPreferences where
  "prefsAUndefB = fmupd ''b'' PUndefined (fmupd ''a'' (PBool True) fmempty)"

definition undefinedSaved :: "unit World" where
  "undefinedSaved =
     \<lparr>state = \<lparr>isLoading = False, destinations = [destA, destB], newDestinations = [destB],
               preferences = Some prefsAUndefB, isConsentRequired = True,
               state_destinationPreferences = Some prefsAUndefB\<rparr>,
      store = \<lparr>destinationPreferences = Some prefsAUndefB, customPreferences = None\<rparr>,
      trace = [ConditionallyLoadAnalytics ''key'' [destA, destB] prefsA True None,
               SavePreferences prefsAUndefB None None,
               ConditionallyLoadAnalytics ''key'' [destA, destB] prefsAUndefB True None]\<rparr>"

text \<open>
  A catalog whose first destination has the id \<^verbatim>\<open>constructor\<close>, and the world that
  initialisation produces from it for a user with no record.
\<close>

definition destConstructor :: Destination where
  "destConstructor = \<lparr>id' = ''constructor''\<rparr>"

definition catalogConstructorA :: "unit Env" where
  "catalogConstructorA =
     \<lparr>fetchDestinations = (\<lambda>keys. Inr [destConstructor, destA]), fetchSettlesFirst = False\<rparr>"

definition constructorReady :: "unit World" where
  "constructorReady =
     \<lparr>state = \<lparr>isLoading = False, destinations = [destConstructor, destA],
               newDestinations = [destA],
               preferences = Some fmempty, isConsentRequired = True,
               state_destinationPreferences = None\<rparr>,
      store = \<lparr>destinationPreferences = None, customPreferences = None\<rparr>,
      trace = [ConditionallyLoadAnalytics ''key'' [destConstructor, destA] fmempty True None]\<rparr>"

text \<open>The world after \<^verbatim>\<open>saveConsent(true)\<close> for the returning user, without an adapter.\<close>

definition acceptedAll :: "unit World" where
  "acceptedAll =
     \<lparr>state = \<lparr>isLoading = False, destinations = [destA, destB], newDestinations = [],
               preferences = Some prefsAB, isConsentRequired = True,
               state_destinationPreferences = Some prefsAB\<rparr>,
      store = \<lparr>destinationPreferences = Some prefsAB, customPreferences = None\<rparr>,
      trace = [ConditionallyLoadAnalytics ''key'' [destA, destB] prefsA True None,
               SavePreferences prefsAB None None,
               ConditionallyLoadAnalytics ''key'' [destA, destB] prefsAB True None]\<rparr>"

section \<open>Properties of the pure functions\<close>

lemma getProp_undefined_iff:
  "getProp obj k = PUndefined \<longleftrightarrow>
     fmlookup obj k = Some PUndefined \<or> (fmlookup obj k = None \<and> k \<notin> set objectPrototypeKeys)"
  by (simp add: getProp_def split: option.split)

lemma broadcast_lookup:
  "fmlookup (foldl (\<lambda>prefs destination. fmupd (id' destination) v prefs) acc ds) k =
     (if k \<in> id' ` set ds then Some v else fmlookup acc k)"
  by (induction ds arbitrary: acc) auto

text \<open>
  Claim C4, as the specification states it: for all \<open>D\<close> and \<open>P\<close> the diff is exactly
  the destinations of \<open>D\<close> whose id is not a key of \<open>P\<close>. The source compares what
  \<^verbatim>\<open>destinationPreferences[d.id]\<close> reads with \<^verbatim>\<open>undefined\<close> (line 25). A key that is
  present and holds \<^verbatim>\<open>undefined\<close> breaks the equation: for \<open>D = [{id: "a"}]\<close> and
  \<open>P = {a: undefined}\<close> the source returns \<open>D\<close>, the key-based diff returns nothing. So
  does an id that names a member of \<^verbatim>\<open>Object.prototype\<close>: for
  \<open>D = [{id: "constructor"}, {id: "a"}]\<close> and the empty \<open>P\<close> the source returns
  \<open>[{id: "a"}]\<close>, the key-based diff returns \<open>D\<close>.
\<close>

theorem diff_completeness_counterexample:
  "destinationsWithoutConsent [\<lparr>id' = ''a''\<rparr>] (Some (fmupd ''a'' PUndefined fmempty))
     \<noteq> diffByKey [\<lparr>id' = ''a''\<rparr>] (fmupd ''a'' PUndefined fmempty)
   \<and> destinationsWithoutConsent [destConstructor, destA] (Some fmempty)
     \<noteq> diffByKey [destConstructor, destA] fmempty"
  by (simp add: destinationsWithoutConsent_def diffByKey_def getProp_def objectPrototypeKeys_def
      destConstructor_def destA_def)

text \<open>
  Claim C4, amended: the diff of \<open>D\<close> against an absent mapping is \<open>D\<close>. Against a mapping
  \<open>P\<close> it is the order-preserving subsequence of the destinations \<open>d\<close> of \<open>D\<close> such that
  \<open>d.id\<close> is a key of \<open>P\<close> bound to \<^verbatim>\<open>undefined\<close>, or \<open>d.id\<close> is not a key of \<open>P\<close> and
  does not name a member of \<^verbatim>\<open>Object.prototype\<close>. When no key of \<open>P\<close> is bound to
  \<^verbatim>\<open>undefined\<close> and no id in \<open>D\<close> names a member of \<^verbatim>\<open>Object.prototype\<close>, it is
  exactly the subsequence of the destinations whose id is not a key of \<open>P\<close>.
\<close>

theorem diff_completeness_amended:
  "destinationsWithoutConsent D None = D \<and>
   destinationsWithoutConsent D (Some P) =
     filter (\<lambda>d. fmlookup P (id' d) = Some PUndefined \<or>
                 (fmlookup P (id' d) = None \<and> id' d \<notin> set objectPrototypeKeys)) D \<and>
   (PUndefined |\<notin>| fmran P \<and> (\<forall>d \<in> set D. id' d \<notin> set objectPrototypeKeys) \<longrightarrow>
      destinationsWithoutConsent D (Some P) = diffByKey D P)"
proof (intro conjI impI)
  show "destinationsWithoutConsent D None = D"
    by (simp add: destinationsWithoutConsent_def)
next
  show "destinationsWithoutConsent D (Some P) =
     filter (\<lambda>d. fmlookup P (id' d) = Some PUndefined \<or>
                 (fmlookup P (id' d) = None \<and> id' d \<notin> set objectPrototypeKeys)) D"
    by (simp add: destinationsWithoutConsent_def getProp_undefined_iff)
next
  assume a: "PUndefined |\<notin>| fmran P \<and> (\<forall>d \<in> set D. id' d \<notin> set objectPrototypeKeys)"
  have "getProp P (id' d) = PUndefined \<longleftrightarrow> id' d |\<notin>| fmdom P" if "d \<in> set D" for d
    using a that by (auto simp: getProp_undefined_iff fmlookup_dom_iff fmlookup_ran_iff)
  then show "destinationsWithoutConsent D (Some P) = diffByKey D P"
    by (simp add: destinationsWithoutConsent_def diffByKey_def cong: filter_cong)
qed

theorem diff_completeness_amended_witness:
  "PUndefined |\<notin>| fmran prefsA
   \<and> id' destA \<notin> set objectPrototypeKeys \<and> id' destB \<notin> set objectPrototypeKeys
   \<and> destinationsWithoutConsent [destA, destB] (Some prefsA) = [destB]
   \<and> diffByKey [destA, destB] prefsA = [destB]"
proof -
  have h: "PUndefined |\<notin>| fmran prefsA"
    by (simp add: prefsA_def fmlookup_ran_iff)
  have k: "id' destA \<notin> set objectPrototypeKeys \<and> id' destB \<notin> set objectPrototypeKeys"
    by (simp add: destA_def destB_def objectPrototypeKeys_def)
  have d: "diffByKey [destA, destB] prefsA = [destB]"
    by (simp add: diffByKey_def prefsA_def destA_def destB_def)
  from k have "\<forall>d \<in> set [destA, destB]. id' d \<notin> set objectPrototypeKeys"
    by simp
  with diff_completeness_amended [of "[destA, destB]" prefsA] h
  have "destinationsWithoutConsent [destA, destB] (Some prefsA) = diffByKey [destA, destB] prefsA"
    by blast
  with h k d show ?thesis by simp
qed

text \<open>
  Claim C5: for every destination list \<open>D\<close>, existing mapping \<open>E\<close> and boolean \<open>b\<close>, the
  merge with \<open>b\<close> binds exactly the ids of \<open>D\<close>, each to \<open>b\<close>: a key outside the ids of
  \<open>D\<close> is absent, and the result does not depend on \<open>E\<close>.
\<close>

theorem broadcast_merge:
  "fmlookup (mergePreferences D E (NBool b)) k =
     (if k \<in> id' ` set D then Some (PBool b) else None)
   \<and> fmdom' (mergePreferences D E (NBool b)) = id' ` set D
   \<and> mergePreferences D E (NBool b) = mergePreferences D fmempty (NBool b)"
proof -
  have l: "\<And>k. fmlookup (mergePreferences D E (NBool b)) k =
      (if k \<in> id' ` set D then Some (PBool b) else None)"
    by (simp add: mergePreferences_def broadcast_lookup)
  have "fmdom' (mergePreferences D E (NBool b)) = id' ` set D"
    by (auto simp: fmlookup_dom'_iff l split: if_splits)
  moreover have "mergePreferences D E (NBool b) = mergePreferences D fmempty (NBool b)"
    by (simp add: mergePreferences_def)
  ultimately show ?thesis using l by simp
qed

text \<open>
  Claim C6: for a mapping \<open>N\<close>, the merge of \<open>N\<close> over \<open>E\<close> binds every key of \<open>N\<close> to the
  value \<open>N\<close> gives it and every other key as \<open>E\<close> does; the merge of \<^verbatim>\<open>undefined\<close> over
  \<open>E\<close> is \<open>E\<close>; and the merge of \<^verbatim>\<open>{b: false}\<close> over \<^verbatim>\<open>{a: true}\<close> is
  \<^verbatim>\<open>{a: true, b: false}\<close>, for every destination list.
\<close>

theorem incremental_merge:
  "fmlookup (mergePreferences D E (NPrefs N)) k =
     (case fmlookup N k of Some v \<Rightarrow> Some v | None \<Rightarrow> fmlookup E k)
   \<and> mergePreferences D E NUndefined = E
   \<and> mergePreferences D prefsA (NPrefs (fmupd ''b'' (PBool False) fmempty))
       = fmupd ''b'' (PBool False) (fmupd ''a'' (PBool True) fmempty)"
  by (simp add: mergePreferences_def prefsA_def fmlookup_dom_iff split: option.split)

text \<open>
  Claim C10: a destination \<open>d\<close> is in the diff of \<open>D\<close> against \<open>P\<close> exactly when it is in
  \<open>D\<close> and \<open>P[d.id]\<close> is \<^verbatim>\<open>undefined\<close>. So a key that is present and bound to
  \<^verbatim>\<open>undefined\<close> leaves \<open>d\<close> in the diff, and a key bound to \<^verbatim>\<open>null\<close>, \<^verbatim>\<open>false\<close> or
  \<^verbatim>\<open>true\<close> takes it out.
\<close>

theorem diff_membership_by_value:
  "(d \<in> set (destinationsWithoutConsent D (Some P)) \<longleftrightarrow>
      d \<in> set D \<and> getProp P (id' d) = PUndefined)
   \<and> destinationsWithoutConsent [d] (Some (fmupd (id' d) PUndefined P)) = [d]
   \<and> destinationsWithoutConsent [d] (Some (fmupd (id' d) PNull P)) = []
   \<and> destinationsWithoutConsent [d] (Some (fmupd (id' d) (PBool b) P)) = []"
  by (simp add: destinationsWithoutConsent_def getProp_def)

section \<open>Evaluating the engine on the example inputs\<close>

lemmas fixtures =
  plainProps_def catalogAB_def returningWorld_def freshWorld_def prefsA_def prefsAB_def
  destA_def destB_def initialState_def adapterProps_def categoryAdapter_def offline_def
  readyWorld_def freshReady_def freshUserReady_def undecidedProps_def undecidedReady_def
  undecidedSaved_def prefsAUndefB_def undefinedSaved_def acceptedAll_def
  destConstructor_def catalogConstructorA_def constructorReady_def

lemmas engine =
  initialise_def Let_def withDefault_def orElse_def promiseAll_def loadPreferences_def
  resolveInitial_def conditionallyLoadAnalytics_def destinationsWithoutConsent_def getProp_def
  handleSaveConsent_def resolveSaved_def savePreferences_def mergePreferences_def
  handleResetPreferences_def handleSetPreferences_def componentDidMount_def render_def
  valuesSome_def valuesEvery_def Boolean_def fmpred_iff objectPrototypeKeys_def

lemma initialise_returning: "initialise plainProps catalogAB returningWorld = Inr readyWorld"
  by (simp add: fixtures engine)

lemma initialise_fresh: "initialise plainProps catalogAB freshWorld = Inr freshReady"
  by (simp add: fixtures engine)

lemma initialise_fresh_user: "initialise adapterProps catalogAB freshWorld = Inr freshUserReady"
  by (simp add: fixtures engine)

lemma initialise_undecided: "initialise undecidedProps catalogAB freshWorld = Inr undecidedReady"
  by (simp add: fixtures engine)

lemma initialise_constructor:
  "initialise plainProps catalogConstructorA freshWorld = Inr constructorReady"
  by (simp add: fixtures engine)

lemma initialise_offline:
  "shouldRequireConsent props = None \<Longrightarrow> initialise props offline w = Inl (Error ''network'')"
  by (simp add: offline_def initialise_def Let_def promiseAll_def withDefault_def)

lemma save_undecided:
  "handleSaveConsent undecidedProps (NPrefs prefsA) None undecidedReady = Inr undecidedSaved"
  by (simp add: fixtures engine)

lemma save_undefined:
  "handleSaveConsent plainProps (NPrefs (fmupd ''b'' PUndefined fmempty)) None readyWorld =
     Inr undefinedSaved"
  by (simp add: fixtures engine)

lemma save_accept_all:
  "handleSaveConsent plainProps (NBool True) None readyWorld = Inr acceptedAll"
  by (simp add: fixtures engine)

section \<open>What the operations do to a world\<close>

lemma handleSaveConsent_Inr:
  assumes "handleSaveConsent props np sr w = Inr w'"
  shows "\<exists>dp cp prefs.
           resolveSaved props (destinations (state w))
             (mergePreferences (destinations (state w))
                (withDefault fmempty (preferences (state w))) np) = Inr (dp, cp, prefs)
         \<and> state w' = (state w)\<lparr>state_destinationPreferences := Some dp,
              preferences := Some prefs,
              newDestinations := destinationsWithoutConsent (destinations (state w)) (Some dp)\<rparr>
         \<and> store w' = \<lparr>destinationPreferences = Some dp, customPreferences = cp\<rparr>
         \<and> trace w' = trace w @ [SavePreferences dp cp (cookieDomain props),
              ConditionallyLoadAnalytics (writeKey props) (destinations (state w)) dp
                (isConsentRequired (state w)) sr]"
  using assms
  by (auto simp: handleSaveConsent_def Let_def savePreferences_def conditionallyLoadAnalytics_def
      split: sum.splits prod.splits)

lemma handleSaveConsent_plain:
  assumes "mapCustomPreferences props = None"
  shows "handleSaveConsent props np sr w =
     (let dp = mergePreferences (destinations (state w))
                 (withDefault fmempty (preferences (state w))) np
      in Inr \<lparr>state = (state w)\<lparr>state_destinationPreferences := Some dp,
                 preferences := Some dp,
                 newDestinations := destinationsWithoutConsent (destinations (state w)) (Some dp)\<rparr>,
               store = \<lparr>destinationPreferences = Some dp, customPreferences = None\<rparr>,
               trace = trace w @ [SavePreferences dp None (cookieDomain props),
                 ConditionallyLoadAnalytics (writeKey props) (destinations (state w)) dp
                   (isConsentRequired (state w)) sr]\<rparr>)"
  using assms
  by (simp add: handleSaveConsent_def resolveSaved_def Let_def savePreferences_def
      conditionallyLoadAnalytics_def)

lemma initialise_Inr:
  assumes "initialise props env w = Inr w'"
  shows "\<exists>required dests prefs dp.
           promiseAll (fetchSettlesFirst env) (withDefault (Inr True) (shouldRequireConsent props))
             (fetchDestinations env (writeKey props # withDefault [] (otherWriteKeys props)))
             = Inr (required, dests)
         \<and> resolveInitial props dests (withDefault fmempty (destinationPreferences (store w)))
             (customPreferences (store w)) = Inr (prefs, dp)
         \<and> state w' = (state w)\<lparr>isLoading := False, destinations := dests,
              newDestinations := destinationsWithoutConsent dests
                (Some (withDefault fmempty (destinationPreferences (store w)))),
              preferences := prefs, isConsentRequired := required\<rparr>
         \<and> store w' = store w
         \<and> trace w' = trace w @ [ConditionallyLoadAnalytics (writeKey props) dests dp required None]"
  using assms
  by (auto simp: initialise_def Let_def loadPreferences_def conditionallyLoadAnalytics_def
      split: sum.splits prod.splits)

lemma rejected_lookup_rejects_initialise:
  assumes "withDefault (Inr True) (shouldRequireConsent props) = Inl e1
         \<or> fetchDestinations env (writeKey props # withDefault [] (otherWriteKeys props)) = Inl e2"
  shows "\<exists>e. initialise props env w = Inl e"
  using assms
  by (auto simp: initialise_def Let_def promiseAll_def split: sum.splits)

lemma call_diffInvariant:
  assumes "call props c w = Inr w'" and "diffInvariant w"
  shows "diffInvariant w'"
proof (cases c)
  case (SetPreferences np)
  with assms show ?thesis
    by (auto simp: diffInvariant_def handleSetPreferences_def Let_def loadPreferences_def)
next
  case ResetPreferences
  with assms show ?thesis
    by (auto simp: diffInvariant_def handleResetPreferences_def Let_def loadPreferences_def)
next
  case (SaveConsent np sr)
  with assms have "handleSaveConsent props np sr w = Inr w'" by simp
  from handleSaveConsent_Inr [OF this] show ?thesis
    by (auto simp: diffInvariant_def loadPreferences_def withDefault_def)
qed

lemma calls_diffInvariant: "diffInvariant w \<Longrightarrow> diffInvariant (calls props cs w)"
proof (induction cs arbitrary: w)
  case Nil
  then show ?case by simp
next
  case (Cons c cs)
  show ?case
  proof (cases "call props c w")
    case (Inl e)
    with Cons show ?thesis by simp
  next
    case (Inr w')
    from Inr Cons.prems have "diffInvariant w'" by (rule call_diffInvariant)
    with Cons.IH Inr show ?thesis by simp
  qed
qed

lemma call_isLoading:
  assumes "call props c w = Inr w'"
  shows "isLoading (state w') = isLoading (state w)"
proof (cases c)
  case (SetPreferences np)
  with assms show ?thesis by (auto simp: handleSetPreferences_def Let_def)
next
  case ResetPreferences
  with assms show ?thesis by (auto simp: handleResetPreferences_def Let_def)
next
  case (SaveConsent np sr)
  with assms have "handleSaveConsent props np sr w = Inr w'" by simp
  from handleSaveConsent_Inr [OF this] show ?thesis by auto
qed

lemma calls_isLoading: "isLoading (state (calls props cs w)) = isLoading (state w)"
proof (induction cs arbitrary: w)
  case Nil
  then show ?case by simp
next
  case (Cons c cs)
  show ?case
    by (cases "call props c w") (simp_all add: Cons.IH call_isLoading)
qed

lemma reset_agrees_with_initialise:
  assumes "initialise props env w = Inr w1"
    and "(mapCustomPreferences props \<noteq> None \<and>
            (customPreferences (store w) \<noteq> None \<or> initialPreferences props \<noteq> None))
         \<or> (mapCustomPreferences props = None \<and> destinationPreferences (store w) \<noteq> None)"
  shows "preferences (state (handleResetPreferences props w1)) = preferences (state w1)"
proof -
  from initialise_Inr [OF assms(1)] obtain required dests prefs dp where
    r: "resolveInitial props dests (withDefault fmempty (destinationPreferences (store w)))
          (customPreferences (store w)) = Inr (prefs, dp)"
    and s: "preferences (state w1) = prefs" and t: "store w1 = store w"
    by auto
  from r assms(2) have "prefs =
      (case mapCustomPreferences props of
         Some adapter \<Rightarrow> orElse (customPreferences (store w)) (initialPreferences props)
       | None \<Rightarrow> orElse (destinationPreferences (store w)) (initialPreferences props))"
    by (auto simp: resolveInitial_def Let_def orElse_def withDefault_def
        split: option.splits if_splits sum.splits)
  with s t show ?thesis
    by (simp add: handleResetPreferences_def Let_def loadPreferences_def)
qed

lemma resolveInitial_withDefaultProps:
  "resolveInitial (withDefaultProps props) dests destPrefs customPrefs =
     resolveInitial props dests destPrefs customPrefs"
  by (cases "mapCustomPreferences props"; cases "initialPreferences props"; cases customPrefs)
    (simp_all add: resolveInitial_def withDefaultProps_def withDefault_def orElse_def)

lemma initialise_withDefaultProps:
  "initialise (withDefaultProps props) env w = initialise props env w"
proof -
  have same: "writeKey (withDefaultProps props) = writeKey props"
    "withDefault [] (otherWriteKeys (withDefaultProps props))
       = withDefault [] (otherWriteKeys props)"
    "withDefault (Inr True) (shouldRequireConsent (withDefaultProps props))
       = withDefault (Inr True) (shouldRequireConsent props)"
    by (simp_all add: withDefaultProps_def withDefault_def)
  show ?thesis
    unfolding initialise_def resolveInitial_withDefaultProps same ..
qed

section \<open>Claims about the engine\<close>

text \<open>
  Claim C9: \<^verbatim>\<open>setPreferences\<close> replaces the \<^verbatim>\<open>preferences\<close> field with the merge of its
  argument over the current preferences and changes nothing else: the store and the
  trace of outside calls (no \<^verbatim>\<open>savePreferences\<close>, no \<^verbatim>\<open>conditionallyLoadAnalytics\<close>)
  are as before, and so are \<^verbatim>\<open>newDestinations\<close>, \<^verbatim>\<open>destinations\<close>,
  \<^verbatim>\<open>isConsentRequired\<close> and \<^verbatim>\<open>isLoading\<close>.
\<close>

theorem setPreferences_frame:
  "state (handleSetPreferences np w) =
     (state w)\<lparr>preferences := Some (mergePreferences (destinations (state w))
        (withDefault fmempty (preferences (state w))) np)\<rparr>
   \<and> store (handleSetPreferences np w) = store w
   \<and> trace (handleSetPreferences np w) = trace w
   \<and> newDestinations (state (handleSetPreferences np w)) = newDestinations (state w)
   \<and> destinations (state (handleSetPreferences np w)) = destinations (state w)
   \<and> isConsentRequired (state (handleSetPreferences np w)) = isConsentRequired (state w)
   \<and> isLoading (state (handleSetPreferences np w)) = isLoading (state w)"
  by (simp add: handleSetPreferences_def Let_def)

text \<open>
  Claim C2, at its failing input: no adapter, no persisted record, initial preferences
  \<^verbatim>\<open>{a: true}\<close>. The claim says initialisation exposes \<^verbatim>\<open>{a: true}\<close>; the source
  exposes the empty object, because the destructuring default of line 143 has already
  replaced the missing record by \<^verbatim>\<open>{}\<close> when line 167 tests it.
\<close>

theorem initialise_without_record_exposes_empty:
  "mapCustomPreferences plainProps = None
   \<and> initialPreferences plainProps = Some prefsA
   \<and> destinationPreferences (loadPreferences freshWorld) = None
   \<and> initialise plainProps catalogAB freshWorld = Inr freshReady
   \<and> preferences (state freshReady) = Some fmempty
   \<and> Some fmempty \<noteq> Some prefsA"
proof -
  have "fmlookup prefsA ''a'' \<noteq> fmlookup fmempty ''a''"
    by (simp add: prefsA_def)
  then have "prefsA \<noteq> fmempty" by auto
  then show ?thesis
    by (simp add: initialise_fresh) (simp add: fixtures loadPreferences_def)
qed

text \<open>
  Claim C3, at its failing input (the one of C2): after initialisation has exposed the
  empty object, \<^verbatim>\<open>resetPreferences\<close> on the same store, props and initial preferences
  yields \<^verbatim>\<open>{a: true}\<close>, since line 196 has no default and line 202 falls back.
\<close>

theorem reset_differs_from_initialise_without_record:
  "initialise plainProps catalogAB freshWorld = Inr freshReady
   \<and> store freshReady = store freshWorld
   \<and> preferences (state freshReady) = Some fmempty
   \<and> preferences (state (handleResetPreferences plainProps freshReady)) = Some prefsA
   \<and> preferences (state (handleResetPreferences plainProps freshReady))
       \<noteq> preferences (state freshReady)"
proof -
  have "fmlookup prefsA ''a'' \<noteq> fmlookup fmempty ''a''"
    by (simp add: prefsA_def)
  then have "prefsA \<noteq> fmempty" by auto
  moreover have "preferences (state (handleResetPreferences plainProps freshReady)) = Some prefsA"
    by (simp add: handleResetPreferences_def Let_def loadPreferences_def orElse_def
        plainProps_def freshReady_def)
  ultimately show ?thesis
    by (simp add: initialise_fresh) (simp add: freshReady_def freshWorld_def)
qed

text \<open>
  Claim C1, as stated, fails after a save and after initialisation. The returning user
  calls \<^verbatim>\<open>saveConsent({b: undefined})\<close>: the mapping handed to \<^verbatim>\<open>savePreferences\<close>,
  which the store then holds, is \<^verbatim>\<open>{a: true, b: undefined}\<close>; it has the key \<open>b\<close>, yet
  \<open>b\<close> is in \<^verbatim>\<open>newDestinations\<close>. And for a user with no record and the catalog
  \<open>[{id: "constructor"}, {id: "a"}]\<close>, the loaded mapping has no key at all, yet
  \<^verbatim>\<open>newDestinations\<close> is \<open>[{id: "a"}]\<close> only.
\<close>

theorem newDestinations_invariant_counterexample:
  "initialise plainProps catalogAB returningWorld = Inr readyWorld
   \<and> handleSaveConsent plainProps (NPrefs (fmupd ''b'' PUndefined fmempty)) None readyWorld
        = Inr undefinedSaved
   \<and> trace undefinedSaved = trace readyWorld @
        [SavePreferences prefsAUndefB None None,
         ConditionallyLoadAnalytics ''key'' [destA, destB] prefsAUndefB True None]
   \<and> destinationPreferences (loadPreferences undefinedSaved) = Some prefsAUndefB
   \<and> newDestinations (state undefinedSaved)
        \<noteq> diffByKey (destinations (state undefinedSaved)) prefsAUndefB
   \<and> destinationPreferences (loadPreferences freshWorld) = None
   \<and> initialise plainProps catalogConstructorA freshWorld = Inr constructorReady
   \<and> newDestinations (state constructorReady)
        \<noteq> diffByKey (destinations (state constructorReady)) fmempty"
  by (simp add: initialise_returning save_undefined initialise_constructor)
    (simp add: fixtures diffByKey_def loadPreferences_def)

text \<open>
  Claim C1, amended. Write \<open>P[k]\<close> for property access on a plain object, as \<open>getProp\<close>
  defines it: the value of the own key \<open>k\<close>, else a function or object when \<open>k\<close> names a
  member of \<^verbatim>\<open>Object.prototype\<close>, else \<^verbatim>\<open>undefined\<close>.

  \<^item> When initialisation completes, the store is as it was, and \<^verbatim>\<open>newDestinations\<close> is
    the order-preserving subsequence of the destinations \<open>d\<close> with \<open>P[d.id]\<close> undefined,
    where \<open>P\<close> is the destination-level mapping loaded from the store (the empty mapping
    when there is no record). This is so for all props, the fresh-user branch included:
    the adapter's output is not what the diff is taken against.
  \<^item> After any sequence of \<^verbatim>\<open>setPreferences\<close>, \<^verbatim>\<open>resetPreferences\<close> and
    \<^verbatim>\<open>saveConsent\<close> calls, \<^verbatim>\<open>newDestinations\<close> is that subsequence for the
    destination-level mapping then in the store.
  \<^item> \<^verbatim>\<open>setPreferences\<close> and \<^verbatim>\<open>resetPreferences\<close> change neither
    \<^verbatim>\<open>newDestinations\<close>, nor \<^verbatim>\<open>destinations\<close>, nor the store.
  \<^item> A \<^verbatim>\<open>saveConsent\<close> that returns has handed one mapping \<open>dp\<close> to
    \<^verbatim>\<open>savePreferences\<close>; the store then holds \<open>dp\<close>, the destinations are as before, and
    \<^verbatim>\<open>newDestinations\<close> is the subsequence of the destinations \<open>d\<close> with \<open>dp[d.id]\<close>
    undefined.
\<close>

theorem newDestinations_invariant_amended:
  assumes "initialise props env w0 = Inr w1"
  shows "store w1 = store w0
       \<and> newDestinations (state w1) =
           filter (\<lambda>d. getProp (withDefault fmempty (destinationPreferences (store w0))) (id' d)
                         = PUndefined)
             (destinations (state w1))
       \<and> newDestinations (state (calls props cs w1)) =
           filter (\<lambda>d. getProp (withDefault fmempty
                           (destinationPreferences (store (calls props cs w1)))) (id' d)
                         = PUndefined)
             (destinations (state (calls props cs w1)))
       \<and> diffInvariant (calls props cs w1)
       \<and> newDestinations (state (handleSetPreferences np w)) = newDestinations (state w)
       \<and> destinations (state (handleSetPreferences np w)) = destinations (state w)
       \<and> store (handleSetPreferences np w) = store w
       \<and> newDestinations (state (handleResetPreferences props w)) = newDestinations (state w)
       \<and> destinations (state (handleResetPreferences props w)) = destinations (state w)
       \<and> store (handleResetPreferences props w) = store w
       \<and> (handleSaveConsent props new sr w = Inr w2 \<longrightarrow>
            (\<exists>dp cp. trace w2 = trace w @
                        [SavePreferences dp cp (cookieDomain props),
                         ConditionallyLoadAnalytics (writeKey props) (destinations (state w)) dp
                           (isConsentRequired (state w)) sr]
                    \<and> store w2 = \<lparr>destinationPreferences = Some dp, customPreferences = cp\<rparr>
                    \<and> destinations (state w2) = destinations (state w)
                    \<and> newDestinations (state w2) =
                        filter (\<lambda>d. getProp dp (id' d) = PUndefined) (destinations (state w2))))"
proof -
  let ?w = "calls props cs w1"
  from initialise_Inr [OF assms] have s: "store w1 = store w0"
    and n: "newDestinations (state w1) =
           destinationsWithoutConsent (destinations (state w1))
             (Some (withDefault fmempty (destinationPreferences (store w0))))"
    by auto
  then have "diffInvariant w1"
    by (simp add: diffInvariant_def loadPreferences_def)
  then have i: "diffInvariant ?w"
    by (rule calls_diffInvariant)
  from n have n': "newDestinations (state w1) =
           filter (\<lambda>d. getProp (withDefault fmempty (destinationPreferences (store w0))) (id' d)
                         = PUndefined)
             (destinations (state w1))"
    by (simp add: destinationsWithoutConsent_def)
  from i have i': "newDestinations (state ?w) =
           filter (\<lambda>d. getProp (withDefault fmempty (destinationPreferences (store ?w))) (id' d)
                         = PUndefined)
             (destinations (state ?w))"
    by (simp add: diffInvariant_def loadPreferences_def destinationsWithoutConsent_def)
  have f: "newDestinations (state (handleSetPreferences np w)) = newDestinations (state w)
       \<and> destinations (state (handleSetPreferences np w)) = destinations (state w)
       \<and> store (handleSetPreferences np w) = store w
       \<and> newDestinations (state (handleResetPreferences props w)) = newDestinations (state w)
       \<and> destinations (state (handleResetPreferences props w)) = destinations (state w)
       \<and> store (handleResetPreferences props w) = store w"
    by (simp add: handleSetPreferences_def handleResetPreferences_def Let_def)
  have v: "handleSaveConsent props new sr w = Inr w2 \<longrightarrow>
            (\<exists>dp cp. trace w2 = trace w @
                        [SavePreferences dp cp (cookieDomain props),
                         ConditionallyLoadAnalytics (writeKey props) (destinations (state w)) dp
                           (isConsentRequired (state w)) sr]
                    \<and> store w2 = \<lparr>destinationPreferences = Some dp, customPreferences = cp\<rparr>
                    \<and> destinations (state w2) = destinations (state w)
                    \<and> newDestinations (state w2) =
                        filter (\<lambda>d. getProp dp (id' d) = PUndefined) (destinations (state w2)))"
  proof
    assume "handleSaveConsent props new sr w = Inr w2"
    from handleSaveConsent_Inr [OF this]
    show "\<exists>dp cp. trace w2 = trace w @
                        [SavePreferences dp cp (cookieDomain props),
                         ConditionallyLoadAnalytics (writeKey props) (destinations (state w)) dp
                           (isConsentRequired (state w)) sr]
                    \<and> store w2 = \<lparr>destinationPreferences = Some dp, customPreferences = cp\<rparr>
                    \<and> destinations (state w2) = destinations (state w)
                    \<and> newDestinations (state w2) =
                        filter (\<lambda>d. getProp dp (id' d) = PUndefined) (destinations (state w2))"
      by (auto simp: destinationsWithoutConsent_def)
  qed
  from s n' i' i f v show ?thesis by blast
qed

theorem newDestinations_invariant_amended_witness:
  "initialise adapterProps catalogAB freshWorld = Inr freshUserReady
   \<and> store freshUserReady = store freshWorld
   \<and> destinationPreferences (store freshWorld) = None
   \<and> newDestinations (state freshUserReady) =
       filter (\<lambda>d. getProp fmempty (id' d) = PUndefined) (destinations (state freshUserReady))
   \<and> newDestinations (state freshUserReady) = [destA, destB]
   \<and> diffInvariant (calls adapterProps [SetPreferences (NBool False), ResetPreferences] freshUserReady)
   \<and> newDestinations (state (handleSetPreferences (NBool False) freshUserReady)) = [destA, destB]
   \<and> newDestinations (state (handleResetPreferences adapterProps freshUserReady)) = [destA, destB]
   \<and> handleSaveConsent adapterProps NUndefined None freshUserReady
       = Inr (calls adapterProps [SaveConsent NUndefined None] freshUserReady)
   \<and> destinationPreferences (store (calls adapterProps [SaveConsent NUndefined None]
         freshUserReady)) = Some prefsAB
   \<and> newDestinations (state (calls adapterProps [SaveConsent NUndefined None] freshUserReady)) = []"
proof -
  let ?cs = "[SetPreferences (NBool False), ResetPreferences]"
  let ?w2 = "calls adapterProps [SaveConsent NUndefined None] freshUserReady"
  have sv: "handleSaveConsent adapterProps NUndefined None freshUserReady = Inr ?w2"
    by (simp add: fixtures engine)
  have dp: "destinationPreferences (store ?w2) = Some prefsAB"
    by (simp add: fixtures engine)
  have nd: "newDestinations (state ?w2) = []"
    by (simp add: fixtures engine)
  have st: "destinationPreferences (store freshWorld) = None"
    by (simp add: freshWorld_def)
  have fr: "newDestinations (state freshUserReady) = [destA, destB]"
    by (simp add: freshUserReady_def)
  note inst = newDestinations_invariant_amended
    [OF initialise_fresh_user, where cs = ?cs and np = "NBool False" and w = freshUserReady
      and new = NUndefined and sr = None and ?w2.0 = ?w2]
  from inst have "store freshUserReady = store freshWorld" by (rule conjunct1)
  moreover from inst have "newDestinations (state freshUserReady) =
       filter (\<lambda>d. getProp (withDefault fmempty (destinationPreferences (store freshWorld))) (id' d)
                     = PUndefined) (destinations (state freshUserReady))"
    by (rule conjunct1 [OF conjunct2])
  then have "newDestinations (state freshUserReady) =
       filter (\<lambda>d. getProp fmempty (id' d) = PUndefined) (destinations (state freshUserReady))"
    by (simp add: st withDefault_def)
  moreover from inst have "diffInvariant (calls adapterProps ?cs freshUserReady)"
    by blast
  moreover from inst fr
  have "newDestinations (state (handleSetPreferences (NBool False) freshUserReady)) = [destA, destB]
      \<and> newDestinations (state (handleResetPreferences adapterProps freshUserReady)) = [destA, destB]"
    by simp
  ultimately show ?thesis
    using initialise_fresh_user sv dp nd st fr by simp
qed

text \<open>
  Claim C7, as stated, fails when an adapter is configured: the diff is recomputed
  against the adapter's destination-level output, and an adapter that reads only its own
  categories leaves \<open>a\<close> undecided. With \<open>a\<close> in \<^verbatim>\<open>newDestinations\<close>,
  \<^verbatim>\<open>saveConsent({a: true})\<close> returns and \<open>a\<close> is still in \<^verbatim>\<open>newDestinations\<close>.
\<close>

theorem saveConsent_recomputes_diff_counterexample:
  "initialise undecidedProps catalogAB freshWorld = Inr undecidedReady
   \<and> destA \<in> set (newDestinations (state undecidedReady))
   \<and> handleSaveConsent undecidedProps (NPrefs (fmupd ''a'' (PBool True) fmempty)) None
        undecidedReady = Inr undecidedSaved
   \<and> destA \<in> set (newDestinations (state undecidedSaved))"
proof -
  have "handleSaveConsent undecidedProps (NPrefs (fmupd ''a'' (PBool True) fmempty)) None
        undecidedReady = Inr undecidedSaved"
    using save_undecided by (simp add: prefsA_def)
  then show ?thesis
    by (simp add: initialise_undecided) (simp add: undecidedReady_def undecidedSaved_def)
qed

text \<open>
  Claim C7, amended. Let \<open>merged\<close> be the merge of the argument of \<^verbatim>\<open>saveConsent\<close> over
  the current preferences (the empty object when there are none). A \<^verbatim>\<open>saveConsent\<close>
  that returns has resolved destination-level preferences \<open>dp\<close>: \<open>dp\<close> is \<open>merged\<close> when
  no adapter is configured, and it is the \<^verbatim>\<open>destinationPreferences\<close> that the adapter
  returned for the destinations and \<open>merged\<close> when one is. It has handed \<open>dp\<close> to
  \<^verbatim>\<open>savePreferences\<close> and then to \<^verbatim>\<open>conditionallyLoadAnalytics\<close>, made no other
  outside call, and set \<^verbatim>\<open>newDestinations\<close> to what \<^verbatim>\<open>destinationsWithoutConsent\<close>
  returns for the destinations and \<open>dp\<close>. When no adapter is configured,
  \<^verbatim>\<open>saveConsent({x: true})\<close> returns and no destination with id \<open>x\<close> is in
  \<^verbatim>\<open>newDestinations\<close> afterwards; and from a state with destinations \<open>a\<close>, \<open>b\<close> and
  preferences \<^verbatim>\<open>{a: true}\<close>, \<^verbatim>\<open>saveConsent(true)\<close> yields preferences
  \<^verbatim>\<open>{a: true, b: true}\<close>, no new destination, and one \<^verbatim>\<open>savePreferences\<close> call, with
  destination preferences \<^verbatim>\<open>{a: true, b: true}\<close>.
\<close>

theorem saveConsent_recomputes_diff_amended:
  "(handleSaveConsent props np sr w = Inr w' \<longrightarrow>
      (\<exists>dp cp.
         (case mapCustomPreferences props of
            None \<Rightarrow>
              dp = mergePreferences (destinations (state w))
                     (withDefault fmempty (preferences (state w))) np
          | Some adapter \<Rightarrow>
              (\<exists>custom.
                 adapter (destinations (state w))
                   (mergePreferences (destinations (state w))
                      (withDefault fmempty (preferences (state w))) np) = Inr custom
                 \<and> dp = mapped_destinationPreferences custom))
         \<and> trace w' = trace w @
              [SavePreferences dp cp (cookieDomain props),
               ConditionallyLoadAnalytics (writeKey props) (destinations (state w)) dp
                 (isConsentRequired (state w)) sr]
         \<and> state_destinationPreferences (state w') = Some dp
         \<and> newDestinations (state w') =
              destinationsWithoutConsent (destinations (state w)) (Some dp)))
   \<and> (mapCustomPreferences props = None \<longrightarrow>
        (\<exists>w'. handleSaveConsent props (NPrefs (fmupd x (PBool True) fmempty)) sr w = Inr w'
             \<and> x \<notin> id' ` set (newDestinations (state w'))))
   \<and> (mapCustomPreferences props = None \<and> destinations (state w) = [da, db]
        \<and> id' da = ''a'' \<and> id' db = ''b'' \<and> preferences (state w) = Some prefsA \<longrightarrow>
        (\<exists>w'. handleSaveConsent props (NBool True) sr w = Inr w'
             \<and> preferences (state w') = Some prefsAB
             \<and> newDestinations (state w') = []
             \<and> trace w' = trace w @
                  [SavePreferences prefsAB None (cookieDomain props),
                   ConditionallyLoadAnalytics (writeKey props) [da, db] prefsAB
                     (isConsentRequired (state w)) sr]))"
proof (intro conjI impI)
  let ?merged = "mergePreferences (destinations (state w))
                     (withDefault fmempty (preferences (state w))) np"
  assume "handleSaveConsent props np sr w = Inr w'"
  from handleSaveConsent_Inr [OF this] obtain dp cp prefs where
    r: "resolveSaved props (destinations (state w)) ?merged = Inr (dp, cp, prefs)"
    and t: "trace w' = trace w @
              [SavePreferences dp cp (cookieDomain props),
               ConditionallyLoadAnalytics (writeKey props) (destinations (state w)) dp
                 (isConsentRequired (state w)) sr]"
    and d: "state_destinationPreferences (state w') = Some dp"
    and n: "newDestinations (state w') =
              destinationsWithoutConsent (destinations (state w)) (Some dp)"
    by auto
  from r have "case mapCustomPreferences props of
            None \<Rightarrow> dp = ?merged
          | Some adapter \<Rightarrow>
              (\<exists>custom. adapter (destinations (state w)) ?merged = Inr custom
                 \<and> dp = mapped_destinationPreferences custom)"
    by (auto simp: resolveSaved_def split: option.splits sum.splits)
  with t d n
  show "\<exists>dp cp.
         (case mapCustomPreferences props of
            None \<Rightarrow> dp = ?merged
          | Some adapter \<Rightarrow>
              (\<exists>custom. adapter (destinations (state w)) ?merged = Inr custom
                 \<and> dp = mapped_destinationPreferences custom))
         \<and> trace w' = trace w @
              [SavePreferences dp cp (cookieDomain props),
               ConditionallyLoadAnalytics (writeKey props) (destinations (state w)) dp
                 (isConsentRequired (state w)) sr]
         \<and> state_destinationPreferences (state w') = Some dp
         \<and> newDestinations (state w') =
              destinationsWithoutConsent (destinations (state w)) (Some dp)"
    by blast
next
  assume plain: "mapCustomPreferences props = None"
  show "\<exists>w'. handleSaveConsent props (NPrefs (fmupd x (PBool True) fmempty)) sr w = Inr w'
             \<and> x \<notin> id' ` set (newDestinations (state w'))"
    by (auto simp: handleSaveConsent_plain [OF plain] Let_def mergePreferences_def
        destinationsWithoutConsent_def getProp_def)
next
  assume a: "mapCustomPreferences props = None \<and> destinations (state w) = [da, db]
        \<and> id' da = ''a'' \<and> id' db = ''b'' \<and> preferences (state w) = Some prefsA"
  then have plain: "mapCustomPreferences props = None" by simp
  from a have m: "mergePreferences [da, db] (withDefault fmempty (Some prefsA)) (NBool True)
      = prefsAB"
    by (simp add: mergePreferences_def prefsAB_def)
  from a show "\<exists>w'. handleSaveConsent props (NBool True) sr w = Inr w'
             \<and> preferences (state w') = Some prefsAB
             \<and> newDestinations (state w') = []
             \<and> trace w' = trace w @
                  [SavePreferences prefsAB None (cookieDomain props),
                   ConditionallyLoadAnalytics (writeKey props) [da, db] prefsAB
                     (isConsentRequired (state w)) sr]"
    by (simp add: handleSaveConsent_plain [OF plain] Let_def m)
      (simp add: destinationsWithoutConsent_def getProp_def prefsAB_def)
qed

theorem saveConsent_recomputes_diff_amended_witness:
  "mapCustomPreferences plainProps = None
   \<and> destinations (state readyWorld) = [destA, destB]
   \<and> id' destA = ''a'' \<and> id' destB = ''b''
   \<and> preferences (state readyWorld) = Some prefsA
   \<and> destB \<in> set (newDestinations (state readyWorld))
   \<and> handleSaveConsent plainProps (NBool True) None readyWorld = Inr acceptedAll
   \<and> preferences (state acceptedAll) = Some prefsAB
   \<and> newDestinations (state acceptedAll) = []
   \<and> trace acceptedAll = trace readyWorld @
        [SavePreferences prefsAB None None,
         ConditionallyLoadAnalytics ''key'' [destA, destB] prefsAB True None]
   \<and> (\<exists>w'. handleSaveConsent plainProps (NPrefs (fmupd ''b'' (PBool True) fmempty)) None
               readyWorld = Inr w'
           \<and> ''b'' \<notin> id' ` set (newDestinations (state w')))
   \<and> mapCustomPreferences undecidedProps = Some categoryAdapter
   \<and> handleSaveConsent undecidedProps (NPrefs prefsA) None undecidedReady = Inr undecidedSaved
   \<and> (\<exists>dp cp custom.
         categoryAdapter (destinations (state undecidedReady))
           (mergePreferences (destinations (state undecidedReady))
              (withDefault fmempty (preferences (state undecidedReady))) (NPrefs prefsA))
           = Inr custom
         \<and> dp = mapped_destinationPreferences custom
         \<and> trace undecidedSaved = trace undecidedReady @
              [SavePreferences dp cp None,
               ConditionallyLoadAnalytics ''key'' [destA, destB] dp True None]
         \<and> newDestinations (state undecidedSaved) =
              destinationsWithoutConsent [destA, destB] (Some dp))"
proof -
  have h: "mapCustomPreferences plainProps = None \<and> destinations (state readyWorld) = [destA, destB]
        \<and> id' destA = ''a'' \<and> id' destB = ''b'' \<and> preferences (state readyWorld) = Some prefsA"
    by (simp add: plainProps_def readyWorld_def destA_def destB_def)
  note inst = saveConsent_recomputes_diff_amended
    [where props = plainProps and np = "NBool True" and sr = None and w = readyWorld
      and w' = acceptedAll and x = "''b''" and da = destA and db = destB]
  from h have h1: "mapCustomPreferences plainProps = None" by (rule conjunct1)
  from inst have "mapCustomPreferences plainProps = None \<longrightarrow>
      (\<exists>w'. handleSaveConsent plainProps (NPrefs (fmupd ''b'' (PBool True) fmempty)) None
               readyWorld = Inr w'
           \<and> ''b'' \<notin> id' ` set (newDestinations (state w')))"
    by (rule conjunct1 [OF conjunct2])
  from this h1
  have g: "\<exists>w'. handleSaveConsent plainProps (NPrefs (fmupd ''b'' (PBool True) fmempty)) None
               readyWorld = Inr w'
           \<and> ''b'' \<notin> id' ` set (newDestinations (state w'))"
    by (rule mp)
  have b: "destB \<in> set (newDestinations (state readyWorld))"
    by (simp add: readyWorld_def)
  have r: "preferences (state acceptedAll) = Some prefsAB
    \<and> newDestinations (state acceptedAll) = []
    \<and> trace acceptedAll = trace readyWorld @
        [SavePreferences prefsAB None None,
         ConditionallyLoadAnalytics ''key'' [destA, destB] prefsAB True None]"
    by (simp add: acceptedAll_def readyWorld_def)
  have u: "mapCustomPreferences undecidedProps = Some categoryAdapter"
    by (simp add: undecidedProps_def adapterProps_def plainProps_def)
  have facts: "destinations (state undecidedReady) = [destA, destB]"
    "isConsentRequired (state undecidedReady) = True"
    "cookieDomain undecidedProps = None" "writeKey undecidedProps = ''key''"
    by (simp_all add: undecidedReady_def undecidedProps_def adapterProps_def plainProps_def)
  from saveConsent_recomputes_diff_amended
    [where props = undecidedProps and np = "NPrefs prefsA" and sr = None and w = undecidedReady
      and w' = undecidedSaved, THEN conjunct1, THEN mp, OF save_undecided]
  have a: "\<exists>dp cp custom.
         categoryAdapter (destinations (state undecidedReady))
           (mergePreferences (destinations (state undecidedReady))
              (withDefault fmempty (preferences (state undecidedReady))) (NPrefs prefsA))
           = Inr custom
         \<and> dp = mapped_destinationPreferences custom
         \<and> trace undecidedSaved = trace undecidedReady @
              [SavePreferences dp cp None,
               ConditionallyLoadAnalytics ''key'' [destA, destB] dp True None]
         \<and> newDestinations (state undecidedSaved) =
              destinationsWithoutConsent [destA, destB] (Some dp)"
    unfolding u option.case facts by blast
  from h g b r u a save_accept_all save_undecided show ?thesis by blast
qed

text \<open>
  Claim C8: the engine has just been constructed (\<^verbatim>\<open>isLoading\<close> is true) and
  initialisation fails, because the consent predicate rejects, or the catalog fetch
  rejects, or for any other reason. Then \<^verbatim>\<open>initialise\<close> rejects with some error \<open>e\<close>.
  With an error callback configured, \<^verbatim>\<open>componentDidMount\<close> resolves, the only outside
  call is \<^verbatim>\<open>onError(e)\<close>, the state is untouched, and after any sequence of handler
  calls \<^verbatim>\<open>isLoading\<close> is still true and \<^verbatim>\<open>render\<close> returns \<^verbatim>\<open>null\<close> without calling
  \<^verbatim>\<open>children\<close>. Without an error callback, \<^verbatim>\<open>componentDidMount\<close> rejects with \<open>e\<close>.
\<close>

theorem initialisation_failure_handling:
  assumes "isLoading (state w)"
    and "withDefault (Inr True) (shouldRequireConsent props) = Inl e1
         \<or> fetchDestinations env (writeKey props # withDefault [] (otherWriteKeys props)) = Inl e2
         \<or> initialise props env w = Inl e3"
  shows "\<exists>e. initialise props env w = Inl e
           \<and> (onError props \<longrightarrow>
                componentDidMount props env w = Inr (w\<lparr>trace := trace w @ [OnError e]\<rparr>)
              \<and> isLoading (state (calls props cs (w\<lparr>trace := trace w @ [OnError e]\<rparr>)))
              \<and> render (state (calls props cs (w\<lparr>trace := trace w @ [OnError e]\<rparr>))) = None)
           \<and> (\<not> onError props \<longrightarrow> componentDidMount props env w = Inl e)"
proof -
  from assms(2) obtain e where e: "initialise props env w = Inl e"
    using rejected_lookup_rejects_initialise [of props e1 env e2 w] by blast
  have l: "isLoading (state (calls props cs (w\<lparr>trace := trace w @ [OnError e]\<rparr>)))"
    using assms(1) by (simp add: calls_isLoading)
  then have "render (state (calls props cs (w\<lparr>trace := trace w @ [OnError e]\<rparr>))) = None"
    by (simp add: render_def)
  with e l show ?thesis
    by (auto simp: componentDidMount_def)
qed

theorem initialisation_failure_handling_witness:
  "isLoading (state freshWorld)
   \<and> fetchDestinations offline (writeKey plainProps # withDefault [] (otherWriteKeys plainProps))
       = Inl (Error ''network'')
   \<and> initialise plainProps offline freshWorld = Inl (Error ''network'')
   \<and> componentDidMount plainProps offline freshWorld = Inl (Error ''network'')
   \<and> componentDidMount (plainProps\<lparr>onError := True\<rparr>) offline freshWorld
       = Inr (freshWorld\<lparr>trace := [OnError (Error ''network'')]\<rparr>)
   \<and> render (state (calls (plainProps\<lparr>onError := True\<rparr>)
        [SaveConsent (NBool True) None, ResetPreferences]
        (freshWorld\<lparr>trace := [OnError (Error ''network'')]\<rparr>))) = None"
proof -
  let ?cs = "[SaveConsent (NBool True) None, ResetPreferences]"
  have l: "isLoading (state freshWorld)"
    by (simp add: freshWorld_def initialState_def)
  have f: "fetchDestinations offline (writeKey plainProps # withDefault [] (otherWriteKeys plainProps))
       = Inl (Error ''network'')"
    by (simp add: offline_def)
  have i: "\<And>b. initialise (plainProps\<lparr>onError := b\<rparr>) offline freshWorld = Inl (Error ''network'')"
    by (rule initialise_offline) (simp add: plainProps_def)
  have t: "trace freshWorld = []"
    by (simp add: freshWorld_def)
  have p: "plainProps\<lparr>onError := False\<rparr> = plainProps"
    by (simp add: plainProps_def)
  from initialisation_failure_handling
    [of freshWorld "plainProps\<lparr>onError := False\<rparr>" "Error ''network''" offline "Error ''network''"
      "Error ''network''" ?cs] l i [of False]
  have a: "componentDidMount plainProps offline freshWorld = Inl (Error ''network'')"
    by (simp add: p plainProps_def)
  from initialisation_failure_handling
    [of freshWorld "plainProps\<lparr>onError := True\<rparr>" "Error ''network''" offline "Error ''network''"
      "Error ''network''" ?cs] l i [of True]
  have b: "componentDidMount (plainProps\<lparr>onError := True\<rparr>) offline freshWorld
       = Inr (freshWorld\<lparr>trace := [OnError (Error ''network'')]\<rparr>)
     \<and> render (state (calls (plainProps\<lparr>onError := True\<rparr>) ?cs
        (freshWorld\<lparr>trace := [OnError (Error ''network'')]\<rparr>))) = None"
    by (simp add: t)
  from l f i [of False] a b show ?thesis by (simp add: p)
qed

end
